theory Spec2Isabelle
  imports Main "HOL-Library.Word"
begin

unbundle bit_operations_syntax

section \<open>Constants and tables of MCP23017.py\<close>

definition START_ADDRESS :: nat where
  "START_ADDRESS = 0x20"

definition N_ADDRESSES :: nat where
  "N_ADDRESSES = 8"

text \<open>
  \<open>IOCON_BITS\<close> is a Python dict literal. Iterating over it yields the keys in the order
  they are written, so the table is an association list in that order.
\<close>

definition IOCON_BITS :: "(string \<times> nat) list" where
  "IOCON_BITS =
    [(''INTPOL'', 1),
     (''ODR'', 2),
     (''HAEN'', 3),
     (''DISSLW'', 4),
     (''SEQOP'', 5),
     (''MIRROW'', 6),
     (''BANK'', 7)]"

datatype error = IndexError | KeyError

text \<open>
  \<open>iocon_bit_test(reg, string)\<close> is \<open>(reg & (1 << IOCON_BITS[string])) != 0\<close>. The
  register value is an element of a bytearray, read as a Python integer; a name that is
  not a key of \<open>IOCON_BITS\<close> raises KeyError.
\<close>

definition iocon_bit_test :: "8 word \<Rightarrow> string \<Rightarrow> error + bool" where
  "iocon_bit_test reg string =
    (case map_of IOCON_BITS string of
       None \<Rightarrow> Inl KeyError
     | Some k \<Rightarrow> Inr ((unat reg AND push_bit k (1::nat)) \<noteq> 0))"

text \<open>
  \<open>MAP\<close> has the two keys 0 and 1. The bank that indexes it is the integer 0 or 1 given
  at construction, or the boolean that \<open>iocon_bit_test\<close> returned; Python treats
  \<open>False\<close>/\<open>True\<close> as the keys 0/1, so the bank is a \<open>bool\<close> here.
\<close>

definition MAP :: "bool \<Rightarrow> (nat \<times> string) list" where
  "MAP bank =
    (if \<not> bank then
      [(0x00, ''IODIRA''),
       (0x01, ''IODIRB''),
       (0x02, ''IPOLA''),
       (0x03, ''IPOLB''),
       (0x04, ''GPINTENA''),
       (0x05, ''GPINTENB''),
       (0x06, ''DEFVALA''),
       (0x07, ''DEFVALB''),
       (0x08, ''INTCONA''),
       (0x09, ''INTCONB''),
       (0x0a, ''IOCON''),
       (0x0b, ''IOCON''),
       (0x0c, ''GPPUA''),
       (0x0d, ''GPPUB''),
       (0x0e, ''INTFA''),
       (0x0f, ''INTFB''),
       (0x10, ''INTCAPA''),
       (0x11, ''INTCAPB''),
       (0x12, ''GPIOA''),
       (0x13, ''GPIOB''),
       (0x14, ''OLATA''),
       (0x15, ''OLATB'')]
     else
      [(0x00, ''IODIRA''),
       (0x10, ''IODIRB''),
       (0x01, ''IPOLA''),
       (0x11, ''IPOLB''),
       (0x02, ''GPINTENA''),
       (0x12, ''GPINTENB''),
       (0x03, ''DEFVALA''),
       (0x13, ''DEFVALB''),
       (0x04, ''INTCONA''),
       (0x14, ''INTCONB''),
       (0x05, ''IOCON''),
       (0x15, ''IOCON''),
       (0x06, ''GPPUA''),
       (0x16, ''GPPUB''),
       (0x07, ''INTFA''),
       (0x17, ''INTFB''),
       (0x08, ''INTCAPA''),
       (0x18, ''INTCAPB''),
       (0x09, ''GPIOA''),
       (0x19, ''GPIOB''),
       (0x0a, ''OLATA''),
       (0x1a, ''OLATB'')])"

section \<open>Python's string formatting\<close>

text \<open>
  \<open>f"{n:#04x}"\<close> writes a non-negative integer in lower-case hexadecimal after the prefix
  \<open>0x\<close>, padded with zeros to a total width of four characters; a longer number is
  written in full.
\<close>

definition hex_digit :: "nat \<Rightarrow> char" where
  "hex_digit d = ''0123456789abcdef'' ! d"

fun hex_digits :: "nat \<Rightarrow> string" where
  "hex_digits n =
    (if n < 16 then [hex_digit n] else hex_digits (n div 16) @ [hex_digit (n mod 16)])"

declare hex_digits.simps [simp del]

definition format_04x :: "nat \<Rightarrow> string" where
  "format_04x n =
    (let ds = hex_digits n in ''0x'' @ replicate (2 - length ds) (CHR ''0'') @ ds)"

text \<open>\<open>str(b)\<close> for a boolean, as an f-string renders it.\<close>

definition str_bool :: "bool \<Rightarrow> string" where
  "str_bool b = (if b then ''True'' else ''False'')"

text \<open>\<open>sep.join(xs)\<close>.\<close>

fun join :: "string \<Rightarrow> string list \<Rightarrow> string" where
  "join sep [] = []"
| "join sep [x] = x"
| "join sep (x # y # ys) = x @ sep @ join sep (y # ys)"

text \<open>\<open>MAP[bank].get(regaddr, f"{regaddr:#04x}?")\<close>.\<close>

definition MAP_get :: "bool \<Rightarrow> nat \<Rightarrow> string" where
  "MAP_get bank regaddr =
    (case map_of (MAP bank) regaddr of
       Some name \<Rightarrow> name
     | None \<Rightarrow> format_04x regaddr @ ''?'')"

section \<open>Data model\<close>

datatype LLState = IDLE | START | DATA

text \<open>
  An input frame of the I2C analyzer: its type with the entries of its \<open>data\<close> dict that
  the code reads, and its two time stamps. An address frame holds one address byte, which
  the code reads with \<open>frame.data["address"][0]\<close>; a data frame holds a byte string, which
  the code appends whole to its buffer.
\<close>

datatype frame_type =
    Start
  | Address (fd_read: bool) (fd_address: nat) (fd_ack: bool)
  | Data "8 word list"
  | Stop

record frame =
  ftype :: frame_type
  f_start_time :: nat
  f_end_time :: nat

record LLFrame =
  ll_start_time :: "nat option"
  ll_end_time :: nat
  ll_data :: "8 word list"
  ll_read :: bool
  ll_address :: "nat option"

text \<open>The fields of the analyzer object.\<close>

record mcp23017 =
  iocon_bank_setting :: bool
  show_bits_setting :: bool
  IOCON_BANK :: "nat \<rightharpoonup> bool"
  state :: LLState
  address :: "nat option"
  data :: "8 word list"
  start_time :: "nat option"
  read :: bool

text \<open>The frame that \<open>decode\<close> returns, with the three entries of its data dict.\<close>

record analyzer_frame =
  af_type :: string
  af_start_time :: "nat option"
  af_end_time :: nat
  af_address :: nat
  af_read :: string
  af_data :: string

section \<open>The analyzer\<close>

definition reset :: "mcp23017 \<Rightarrow> mcp23017" where
  "reset self =
    self\<lparr>state := IDLE, address := None, data := [], start_time := None, read := False\<rparr>"

text \<open>\<open>__init__\<close>, from the two settings of the host.\<close>

definition init :: "bool \<Rightarrow> bool \<Rightarrow> mcp23017" where
  "init bank show_bits =
    reset \<lparr>iocon_bank_setting = bank,
           show_bits_setting = show_bits,
           IOCON_BANK = map_of (map (\<lambda>addr. (addr, bank))
                                  [START_ADDRESS ..< START_ADDRESS + N_ADDRESSES]),
           state = IDLE, address = None, data = [], start_time = None, read = False\<rparr>"

text \<open>
  \<open>ll_fsm\<close>: every path that does not return early ends in \<open>self.reset()\<close>. The frame
  built at a stop keeps the buffer that \<open>reset\<close> then replaces by a new one.
\<close>

definition ll_fsm :: "mcp23017 \<Rightarrow> frame \<Rightarrow> LLFrame option \<times> mcp23017" where
  "ll_fsm self frame =
    (case state self of
       IDLE \<Rightarrow>
         (case ftype frame of
            Start \<Rightarrow>
              (None, self\<lparr>state := START, start_time := Some (f_start_time frame)\<rparr>)
          | _ \<Rightarrow> (None, reset self))
     | START \<Rightarrow>
         (case ftype frame of
            Address rd addr ak \<Rightarrow>
              (if ak then
                 (let self1 = self\<lparr>read := (read self \<or> rd), address := Some addr\<rparr> in
                  if START_ADDRESS \<le> addr \<and> addr < START_ADDRESS + N_ADDRESSES
                  then (None, self1\<lparr>state := DATA\<rparr>)
                  else (None, reset self1))
               else (None, reset self))
          | _ \<Rightarrow> (None, reset self))
     | DATA \<Rightarrow>
         (case ftype frame of
            Data bs \<Rightarrow> (None, self\<lparr>data := data self @ bs\<rparr>)
          | Start \<Rightarrow> (None, self\<lparr>state := START\<rparr>)
          | Stop \<Rightarrow>
              (Some \<lparr>ll_start_time = start_time self,
                     ll_end_time = f_end_time frame,
                     ll_data = data self,
                     ll_read = read self,
                     ll_address = address self\<rparr>,
               reset (self\<lparr>state := IDLE\<rparr>))
          | _ \<Rightarrow> (None, reset self)))"

text \<open>
  The generator \<open>f"{key}={iocon_bit_test(regval, key)}" for key in IOCON_BITS\<close>, run
  over a list of keys.
\<close>

fun bit_fields :: "8 word \<Rightarrow> string list \<Rightarrow> error + string list" where
  "bit_fields regval [] = Inr []"
| "bit_fields regval (key # keys) =
    (case iocon_bit_test regval key of
       Inl e \<Rightarrow> Inl e
     | Inr b \<Rightarrow>
         (case bit_fields regval keys of
            Inl e \<Rightarrow> Inl e
          | Inr rest \<Rightarrow> Inr ((key @ ''='' @ str_bool b) # rest)))"

text \<open>
  One round of the loop of \<open>decode\<close>, for the pair \<open>(regaddr, regval)\<close>. \<open>iocon_bank\<close>
  is the local variable read before the loop, \<open>rd\<close> and \<open>addr\<close> are the direction and
  the chip address of the transaction, \<open>dat\<close> is the local list \<open>data\<close>. An exception
  leaves the object as it is at that point.
\<close>

definition decode_reg ::
  "bool \<Rightarrow> bool \<Rightarrow> nat \<Rightarrow> nat \<times> 8 word \<Rightarrow> mcp23017 \<Rightarrow> string list
    \<Rightarrow> (error + string list) \<times> mcp23017" where
  "decode_reg iocon_bank rd addr p self dat =
    (let regaddr = fst p; regval = snd p;
         reg_name = MAP_get iocon_bank regaddr
     in
     if reg_name = ''IOCON'' then
       (case (if \<not> rd then
                (case iocon_bit_test regval ''BANK'' of
                   Inl e \<Rightarrow> Inl e
                 | Inr b \<Rightarrow> Inr (self\<lparr>IOCON_BANK := (IOCON_BANK self)(addr \<mapsto> b)\<rparr>))
              else Inr self) of
          Inl e \<Rightarrow> (Inl e, self)
        | Inr self1 \<Rightarrow>
            (if show_bits_setting self1 then
               (case bit_fields regval (map fst IOCON_BITS) of
                  Inl e \<Rightarrow> (Inl e, self1)
                | Inr bits \<Rightarrow> (Inr (dat @ bits), self1))
             else (Inr (dat @ [reg_name @ ''='' @ format_04x (unat regval)]), self1)))
     else (Inr (dat @ [reg_name @ ''='' @ format_04x (unat regval)]), self))"

fun decode_loop ::
  "bool \<Rightarrow> bool \<Rightarrow> nat \<Rightarrow> (nat \<times> 8 word) list \<Rightarrow> mcp23017 \<Rightarrow> string list
    \<Rightarrow> (error + string list) \<times> mcp23017" where
  "decode_loop iocon_bank rd addr [] self dat = (Inr dat, self)"
| "decode_loop iocon_bank rd addr (p # ps) self dat =
    (case decode_reg iocon_bank rd addr p self dat of
       (Inl e, self1) \<Rightarrow> (Inl e, self1)
     | (Inr dat1, self1) \<Rightarrow> decode_loop iocon_bank rd addr ps self1 dat1)"

text \<open>
  The body of \<open>decode\<close> for a frame that \<open>ll_fsm\<close> returned. \<open>i2c_frame.data[0]\<close> raises
  IndexError on an empty buffer, and \<open>self.IOCON_BANK[i2c_frame.address]\<close> raises KeyError
  for an address that is not a key. \<open>enumerate(xs, start=n)\<close> counts in Python's unbounded
  integers.
\<close>

definition decode_i2c_frame ::
  "mcp23017 \<Rightarrow> LLFrame \<Rightarrow> (error + analyzer_frame option) \<times> mcp23017" where
  "decode_i2c_frame self i2c_frame =
    (case ll_data i2c_frame of
       [] \<Rightarrow> (Inl IndexError, self)
     | start_reg # vals \<Rightarrow>
         (case ll_address i2c_frame of
            None \<Rightarrow> (Inl KeyError, self)
          | Some addr \<Rightarrow>
              (case IOCON_BANK self addr of
                 None \<Rightarrow> (Inl KeyError, self)
               | Some iocon_bank \<Rightarrow>
                   (case decode_loop iocon_bank (ll_read i2c_frame) addr
                           (List.enumerate (unat start_reg) vals) self [] of
                      (Inl e, self1) \<Rightarrow> (Inl e, self1)
                    | (Inr dat, self1) \<Rightarrow>
                        (Inr (Some \<lparr>af_type = ''MCP23017'',
                                    af_start_time = ll_start_time i2c_frame,
                                    af_end_time = ll_end_time i2c_frame,
                                    af_address = addr,
                                    af_read = (if ll_read i2c_frame then ''read'' else ''write''),
                                    af_data = join ''; '' dat\<rparr>),
                         self1)))))"

definition decode :: "mcp23017 \<Rightarrow> frame \<Rightarrow> (error + analyzer_frame option) \<times> mcp23017" where
  "decode self frame =
    (case ll_fsm self frame of
       (None, self1) \<Rightarrow> (Inr None, self1)
     | (Some i2c_frame, self1) \<Rightarrow> decode_i2c_frame self1 i2c_frame)"

text \<open>
  The host calls \<open>decode\<close> once for each frame, in order, on the same object. The results
  are listed in that order.
\<close>

fun ll_run :: "mcp23017 \<Rightarrow> frame list \<Rightarrow> LLFrame option list \<times> mcp23017" where
  "ll_run self [] = ([], self)"
| "ll_run self (frame # frames) =
    (case ll_fsm self frame of
       (out, self1) \<Rightarrow> (case ll_run self1 frames of (outs, self2) \<Rightarrow> (out # outs, self2)))"

fun run :: "mcp23017 \<Rightarrow> frame list \<Rightarrow> (error + analyzer_frame option) list \<times> mcp23017" where
  "run self [] = ([], self)"
| "run self (frame # frames) =
    (case decode self frame of
       (out, self1) \<Rightarrow> (case run self1 frames of (outs, self2) \<Rightarrow> (out # outs, self2)))"

text \<open>
  The transactions that \<open>ll_fsm\<close> returns over a frame sequence, in order, and the
  body of \<open>decode\<close> applied to a sequence of transactions in order on the same
  object, as the calls of \<open>decode\<close> apply it to the transactions of the frames.
\<close>

fun transactions :: "mcp23017 \<Rightarrow> frame list \<Rightarrow> LLFrame list" where
  "transactions self [] = []"
| "transactions self (frame # frames) =
    (case ll_fsm self frame of
       (None, self1) \<Rightarrow> transactions self1 frames
     | (Some i2c_frame, self1) \<Rightarrow> i2c_frame # transactions self1 frames)"


section \<open>What one round of the loop computes\<close>

text \<open>
  The fields that one round appends for a pair \<open>(regaddr, regval)\<close> under the bank
  \<open>bank\<close>, and the bank table after that round of a transaction on chip \<open>addr\<close>.
  Both are stated apart from the loop so that its result can be described as a whole.
\<close>

definition reg_fields :: "bool \<Rightarrow> bool \<Rightarrow> nat \<times> 8 word \<Rightarrow> string list" where
  "reg_fields show_bits bank p =
    (if MAP_get bank (fst p) = ''IOCON'' \<and> show_bits
     then map (\<lambda>kv. fst kv @ ''='' @ str_bool (bit (snd p) (snd kv))) IOCON_BITS
     else [MAP_get bank (fst p) @ ''='' @ format_04x (unat (snd p))])"

definition bank_step ::
  "bool \<Rightarrow> bool \<Rightarrow> nat \<Rightarrow> (nat \<rightharpoonup> bool) \<Rightarrow> nat \<times> 8 word \<Rightarrow> (nat \<rightharpoonup> bool)" where
  "bank_step bank rd addr m p =
    (if MAP_get bank (fst p) = ''IOCON'' \<and> \<not> rd then m(addr \<mapsto> bit (snd p) 7) else m)"


section \<open>Example traces\<close>

text \<open>
  Frame sequences as the I2C analyzer delivers them, with increasing time stamps: an
  address-only transaction, a register read with a repeated start, the first three frames
  of a write, and a complete transaction for a chip outside the watched addresses.
\<close>

definition probe_trace :: "frame list" where
  "probe_trace =
    [\<lparr>ftype = Start, f_start_time = 0, f_end_time = 1\<rparr>,
     \<lparr>ftype = Address False 0x20 True, f_start_time = 2, f_end_time = 3\<rparr>,
     \<lparr>ftype = Stop, f_start_time = 4, f_end_time = 5\<rparr>]"

definition repeated_start_trace :: "frame list" where
  "repeated_start_trace =
    [\<lparr>ftype = Start, f_start_time = 0, f_end_time = 1\<rparr>,
     \<lparr>ftype = Address False 0x20 True, f_start_time = 2, f_end_time = 3\<rparr>,
     \<lparr>ftype = Data [0x12], f_start_time = 4, f_end_time = 5\<rparr>,
     \<lparr>ftype = Start, f_start_time = 6, f_end_time = 7\<rparr>,
     \<lparr>ftype = Address True 0x20 True, f_start_time = 8, f_end_time = 9\<rparr>,
     \<lparr>ftype = Data [0x05], f_start_time = 10, f_end_time = 11\<rparr>,
     \<lparr>ftype = Stop, f_start_time = 12, f_end_time = 13\<rparr>]"

definition write_prefix_trace :: "frame list" where
  "write_prefix_trace =
    [\<lparr>ftype = Start, f_start_time = 0, f_end_time = 1\<rparr>,
     \<lparr>ftype = Address False 0x20 True, f_start_time = 2, f_end_time = 3\<rparr>,
     \<lparr>ftype = Data [0x12], f_start_time = 4, f_end_time = 5\<rparr>]"


text \<open>
  Transactions as \<open>ll_fsm\<close> hands them to the body of \<open>decode\<close>, and further
  frame sequences.
\<close>

definition bank_switch_trace :: "frame list" where
  "bank_switch_trace =
    [\<lparr>ftype = Start, f_start_time = 0, f_end_time = 1\<rparr>,
     \<lparr>ftype = Address False 0x20 True, f_start_time = 2, f_end_time = 3\<rparr>,
     \<lparr>ftype = Data [0x0b], f_start_time = 4, f_end_time = 5\<rparr>,
     \<lparr>ftype = Data [0x80], f_start_time = 6, f_end_time = 7\<rparr>,
     \<lparr>ftype = Data [0x05], f_start_time = 8, f_end_time = 9\<rparr>,
     \<lparr>ftype = Stop, f_start_time = 10, f_end_time = 11\<rparr>]"

definition verbose_trace :: "frame list" where
  "verbose_trace =
    [\<lparr>ftype = Start, f_start_time = 0, f_end_time = 1\<rparr>,
     \<lparr>ftype = Address False 0x20 True, f_start_time = 2, f_end_time = 3\<rparr>,
     \<lparr>ftype = Data [0x0a], f_start_time = 4, f_end_time = 5\<rparr>,
     \<lparr>ftype = Data [0x84], f_start_time = 6, f_end_time = 7\<rparr>,
     \<lparr>ftype = Stop, f_start_time = 8, f_end_time = 9\<rparr>]"

definition bank_switch_frame :: LLFrame where
  "bank_switch_frame =
    \<lparr>ll_start_time = Some 0, ll_end_time = 11, ll_data = [0x0b, 0x80, 0x05],
     ll_read = False, ll_address = Some 0x20\<rparr>"

definition verbose_frame :: LLFrame where
  "verbose_frame =
    \<lparr>ll_start_time = Some 0, ll_end_time = 9, ll_data = [0x0a, 0x84],
     ll_read = False, ll_address = Some 0x20\<rparr>"



definition iocon_read_frame :: LLFrame where
  "iocon_read_frame =
    \<lparr>ll_start_time = Some 0, ll_end_time = 9, ll_data = [0x0a, 0x80],
     ll_read = True, ll_address = Some 0x20\<rparr>"

definition iocon_read_prefix_trace :: "frame list" where
  "iocon_read_prefix_trace =
    [\<lparr>ftype = Start, f_start_time = 0, f_end_time = 1\<rparr>,
     \<lparr>ftype = Address True 0x20 True, f_start_time = 2, f_end_time = 3\<rparr>,
     \<lparr>ftype = Data [0x0a], f_start_time = 4, f_end_time = 5\<rparr>,
     \<lparr>ftype = Data [0x80], f_start_time = 6, f_end_time = 7\<rparr>]"

definition wrap_frame :: LLFrame where
  "wrap_frame =
    \<lparr>ll_start_time = Some 0, ll_end_time = 11, ll_data = [0xff, 0x01, 0x02],
     ll_read = False, ll_address = Some 0x20\<rparr>"



section \<open>Auxiliary facts\<close>

lemmas fsm_eval = init_def reset_def ll_fsm_def START_ADDRESS_def N_ADDRESSES_def

lemma and_push_bit_word: "(unat (reg :: 8 word) AND push_bit k (1::nat) \<noteq> 0) = bit reg k"
proof -
  have "(unat reg AND push_bit k (1::nat) \<noteq> 0) = bit (unat reg) k"
    by (simp only: bit_iff_and_push_bit_not_eq_0)
  also have "\<dots> = bit reg k"
    by (simp add: bit_unsigned_iff)
  finally show ?thesis .
qed

lemma iocon_bit_test_key:
  assumes "map_of IOCON_BITS key = Some k"
  shows "iocon_bit_test reg key = Inr (bit reg k)"
proof -
  have "iocon_bit_test reg key = Inr (unat reg AND push_bit k (1::nat) \<noteq> 0)"
    unfolding iocon_bit_test_def using assms by simp
  then show ?thesis
    by (simp only: and_push_bit_word)
qed

lemma iocon_bit_test_BANK: "iocon_bit_test reg ''BANK'' = Inr (bit reg 7)"
  by (rule iocon_bit_test_key) (simp add: IOCON_BITS_def)

lemma bit_fields_keys:
  "list_all2 (\<lambda>key kv. fst kv = key \<and> map_of IOCON_BITS key = Some (snd kv)) keys kvs \<Longrightarrow>
   bit_fields reg keys = Inr (map (\<lambda>kv. fst kv @ ''='' @ str_bool (bit reg (snd kv))) kvs)"
  by (induction keys kvs rule: list_all2_induct) (simp_all add: iocon_bit_test_key)

lemma bit_fields_IOCON_BITS:
  "bit_fields reg (map fst IOCON_BITS) =
     Inr (map (\<lambda>kv. fst kv @ ''='' @ str_bool (bit reg (snd kv))) IOCON_BITS)"
  by (rule bit_fields_keys) (simp add: IOCON_BITS_def)

lemma decode_reg_char:
  "decode_reg b rd addr p self dat =
     (Inr (dat @ reg_fields (show_bits_setting self) b p),
      self\<lparr>IOCON_BANK := bank_step b rd addr (IOCON_BANK self) p\<rparr>)"
  by (simp add: decode_reg_def reg_fields_def bank_step_def Let_def
        iocon_bit_test_BANK bit_fields_IOCON_BITS)

lemma decode_loop_char:
  "decode_loop b rd addr ps self dat =
     (Inr (dat @ concat (map (reg_fields (show_bits_setting self) b) ps)),
      self\<lparr>IOCON_BANK := foldl (bank_step b rd addr) (IOCON_BANK self) ps\<rparr>)"
  by (induction ps arbitrary: self dat) (simp_all add: decode_reg_char)

lemmas decode_eval = decode_def decode_i2c_frame_def enumerate_eq_zip decode_reg_def
  MAP_get_def MAP_def IOCON_BITS_def iocon_bit_test_def format_04x_def hex_digits.simps
  hex_digit_def str_bool_def upt_rec

lemma enumerate_nth_map:
  "List.enumerate n xs = map (\<lambda>i. (n + i, xs ! i)) [0..<length xs]"
  by (rule nth_equalityI) (simp_all add: nth_enumerate_eq)

lemma decode_i2c_frame_ok:
  assumes "ll_data f = start_reg # vals"
    and "ll_address f = Some addr"
    and "IOCON_BANK self addr = Some b"
  shows "decode_i2c_frame self f =
    (Inr (Some \<lparr>af_type = ''MCP23017'',
                af_start_time = ll_start_time f,
                af_end_time = ll_end_time f,
                af_address = addr,
                af_read = (if ll_read f then ''read'' else ''write''),
                af_data = join ''; '' (concat (map (reg_fields (show_bits_setting self) b)
                                        (List.enumerate (unat start_reg) vals)))\<rparr>),
     self\<lparr>IOCON_BANK := foldl (bank_step b (ll_read f) addr) (IOCON_BANK self)
                            (List.enumerate (unat start_reg) vals)\<rparr>)"
  using assms by (simp add: decode_i2c_frame_def decode_loop_char)

lemma enumerate_append:
  "List.enumerate n (xs @ ys) = List.enumerate n xs @ List.enumerate (n + length xs) ys"
  by (induction xs arbitrary: n) simp_all

lemma foldl_bank_step_other:
  "a' \<noteq> addr \<Longrightarrow> foldl (bank_step b rd addr) m ps a' = m a'"
  by (induction ps arbitrary: m) (simp_all add: bank_step_def)

lemma foldl_bank_step_no_iocon:
  "\<forall>p\<in>set ps. MAP_get b (fst p) \<noteq> ''IOCON'' \<Longrightarrow> foldl (bank_step b rd addr) m ps = m"
  by (induction ps arbitrary: m) (simp_all add: bank_step_def)

lemma foldl_bank_step_read:
  "foldl (bank_step b True addr) m ps = m"
  by (induction ps arbitrary: m) (simp_all add: bank_step_def)

lemmas fields_eval = reg_fields_def MAP_get_def MAP_def IOCON_BITS_def format_04x_def
  hex_digits.simps hex_digit_def str_bool_def enumerate_eq_zip upt_rec

lemma reg_fields_plain:
  "\<not> show_bits \<Longrightarrow>
   reg_fields show_bits b p = [MAP_get b (fst p) @ ''='' @ format_04x (unat (snd p))]"
  by (simp add: reg_fields_def)

lemma concat_map_single: "concat (map (\<lambda>i. [g i]) xs) = map g xs"
  by (induction xs) simp_all

subsection \<open>The chip address of a transaction\<close>

text \<open>
  In state DATA the recorded chip address lies in the watched window and was given by an
  acknowledged address frame. \<open>P\<close> collects where that frame can have been.
\<close>

lemma ll_fsm_window:
  assumes "ll_fsm self frame = (out, self1)"
    and "state self = DATA \<longrightarrow>
          (\<exists>a. address self = Some a \<and> START_ADDRESS \<le> a \<and> a < START_ADDRESS + N_ADDRESSES \<and> P a)"
  shows "(state self1 = DATA \<longrightarrow>
          (\<exists>a. address self1 = Some a \<and> START_ADDRESS \<le> a \<and> a < START_ADDRESS + N_ADDRESSES \<and>
               (P a \<or> (\<exists>rd. ftype frame = Address rd a True)))) \<and>
         (\<forall>f. out = Some f \<longrightarrow>
          (\<exists>a. ll_address f = Some a \<and> START_ADDRESS \<le> a \<and> a < START_ADDRESS + N_ADDRESSES \<and> P a))"
  using assms
  by (auto simp: ll_fsm_def reset_def Let_def split: LLState.splits frame_type.splits if_splits)


lemma decode_i2c_frame_state:
  "\<exists>m. snd (decode_i2c_frame self f) = self\<lparr>IOCON_BANK := m\<rparr>"
proof (cases "\<exists>start_reg vals addr b. ll_data f = start_reg # vals \<and> ll_address f = Some addr \<and>
                IOCON_BANK self addr = Some b")
  case True
  then obtain start_reg vals addr b where
    "ll_data f = start_reg # vals" "ll_address f = Some addr" "IOCON_BANK self addr = Some b"
    by blast
  from decode_i2c_frame_ok [OF this] show ?thesis
    by (metis snd_conv)
next
  case False
  then have "snd (decode_i2c_frame self f) = self"
    by (auto simp: decode_i2c_frame_def split: list.splits option.splits)
  then have "snd (decode_i2c_frame self f) = self\<lparr>IOCON_BANK := IOCON_BANK self\<rparr>"
    by simp
  then show ?thesis by (rule exI [of _ "IOCON_BANK self"])
qed

lemma decode_i2c_frame_address:
  assumes "fst (decode_i2c_frame self f) = Inr (Some af)"
  shows "ll_address f = Some (af_address af)"
  using assms
  by (auto simp: decode_i2c_frame_def decode_loop_char split: list.splits option.splits)

lemma decode_via_ll_fsm:
  assumes "decode self frame = (out, self1)" and "ll_fsm self frame = (lout, lself)"
  shows "(\<exists>m. self1 = lself\<lparr>IOCON_BANK := m\<rparr>) \<and>
         (\<forall>af. out = Inr (Some af) \<longrightarrow> (\<exists>f. lout = Some f \<and> ll_address f = Some (af_address af)))"
proof (cases lout)
  case None
  with assms show ?thesis
    by (auto simp: decode_def intro: exI [of _ "IOCON_BANK lself"])
next
  case (Some f)
  with assms have d: "decode_i2c_frame lself f = (out, self1)"
    by (simp add: decode_def)
  from decode_i2c_frame_state [of lself f] d have "\<exists>m. self1 = lself\<lparr>IOCON_BANK := m\<rparr>"
    by simp
  moreover from decode_i2c_frame_address [of lself f] d Some
  have "\<forall>af. out = Inr (Some af) \<longrightarrow> (\<exists>f. lout = Some f \<and> ll_address f = Some (af_address af))"
    by simp
  ultimately show ?thesis ..
qed


subsection \<open>The bank table\<close>

lemma ll_fsm_bank: "IOCON_BANK (snd (ll_fsm self frame)) = IOCON_BANK self"
  by (simp add: ll_fsm_def reset_def Let_def split: LLState.splits frame_type.splits)

lemma decode_i2c_frame_bank:
  "IOCON_BANK (snd (decode_i2c_frame self f)) =
    (case ll_data f of
       [] \<Rightarrow> IOCON_BANK self
     | start_reg # vals \<Rightarrow>
         (case ll_address f of
            None \<Rightarrow> IOCON_BANK self
          | Some addr \<Rightarrow>
              (case IOCON_BANK self addr of
                 None \<Rightarrow> IOCON_BANK self
               | Some b \<Rightarrow> foldl (bank_step b (ll_read f) addr) (IOCON_BANK self)
                            (List.enumerate (unat start_reg) vals))))"
  by (simp add: decode_i2c_frame_def decode_loop_char split: list.splits option.splits)



subsection \<open>What the results depend on\<close>

text \<open>
  The field \<open>iocon_bank_setting\<close> is read by \<open>__init__\<close> only. In state IDLE the
  fields that \<open>reset\<close> sets have the values it gives them.
\<close>

lemma run_Cons:
  "run self (e # frames) =
     (fst (decode self e) # fst (run (snd (decode self e)) frames),
      snd (run (snd (decode self e)) frames))"
  by (simp add: case_prod_unfold)

lemma decode_unfold:
  "decode self frame =
     (case fst (ll_fsm self frame) of
        None \<Rightarrow> (Inr None, snd (ll_fsm self frame))
      | Some f \<Rightarrow> decode_i2c_frame (snd (ll_fsm self frame)) f)"
  by (simp add: decode_def case_prod_unfold)

lemma ll_fsm_setting:
  "ll_fsm (self\<lparr>iocon_bank_setting := x\<rparr>) frame =
     (fst (ll_fsm self frame), (snd (ll_fsm self frame))\<lparr>iocon_bank_setting := x\<rparr>)"
  by (simp add: ll_fsm_def reset_def Let_def split: LLState.splits frame_type.splits)

lemma decode_i2c_frame_setting:
  "decode_i2c_frame (self\<lparr>iocon_bank_setting := x\<rparr>) f =
     (fst (decode_i2c_frame self f), (snd (decode_i2c_frame self f))\<lparr>iocon_bank_setting := x\<rparr>)"
  by (simp add: decode_i2c_frame_def decode_loop_char split: list.splits option.splits)

lemma decode_setting:
  "decode (self\<lparr>iocon_bank_setting := x\<rparr>) frame =
     (fst (decode self frame), (snd (decode self frame))\<lparr>iocon_bank_setting := x\<rparr>)"
  by (simp add: decode_unfold ll_fsm_setting decode_i2c_frame_setting split: option.splits)

lemma run_setting:
  "run (self\<lparr>iocon_bank_setting := x\<rparr>) frames =
     (fst (run self frames), (snd (run self frames))\<lparr>iocon_bank_setting := x\<rparr>)"
proof (induction frames arbitrary: self)
  case Nil
  show ?case by simp
next
  case (Cons e frames)
  show ?case
    by (simp only: run_Cons decode_setting Cons.IH fst_conv snd_conv)
qed

lemma decode_show_bits:
  "show_bits_setting (snd (decode self frame)) = show_bits_setting self"
proof -
  have l: "show_bits_setting (snd (ll_fsm self frame)) = show_bits_setting self"
    by (simp add: ll_fsm_def reset_def Let_def split: LLState.splits frame_type.splits)
  show ?thesis
  proof (cases "fst (ll_fsm self frame)")
    case None
    with l show ?thesis
      by (simp add: decode_unfold)
  next
    case (Some f)
    obtain m where "snd (decode_i2c_frame (snd (ll_fsm self frame)) f) =
        (snd (ll_fsm self frame))\<lparr>IOCON_BANK := m\<rparr>"
      using decode_i2c_frame_state by blast
    with Some l show ?thesis
      by (simp add: decode_unfold)
  qed
qed

lemma run_show_bits:
  "show_bits_setting (snd (run self frames)) = show_bits_setting self"
  by (induction frames arbitrary: self) (simp_all only: run.simps(1) run_Cons snd_conv decode_show_bits)

lemma ll_fsm_idle:
  assumes "state self = IDLE \<longrightarrow>
      address self = None \<and> data self = [] \<and> start_time self = None \<and> \<not> read self"
  shows "state (snd (ll_fsm self frame)) = IDLE \<longrightarrow>
      address (snd (ll_fsm self frame)) = None \<and> data (snd (ll_fsm self frame)) = [] \<and>
      start_time (snd (ll_fsm self frame)) = None \<and> \<not> read (snd (ll_fsm self frame))"
  using assms
  by (simp add: ll_fsm_def reset_def Let_def split: LLState.splits frame_type.splits)

lemma decode_idle:
  assumes "state self = IDLE \<longrightarrow>
      address self = None \<and> data self = [] \<and> start_time self = None \<and> \<not> read self"
  shows "state (snd (decode self frame)) = IDLE \<longrightarrow>
      address (snd (decode self frame)) = None \<and> data (snd (decode self frame)) = [] \<and>
      start_time (snd (decode self frame)) = None \<and> \<not> read (snd (decode self frame))"
proof -
  obtain out s1 where d: "decode self frame = (out, s1)"
    by (cases "decode self frame")
  from decode_via_ll_fsm [OF d surjective_pairing]
  obtain m where "s1 = (snd (ll_fsm self frame))\<lparr>IOCON_BANK := m\<rparr>"
    by blast
  with ll_fsm_idle [OF assms, of frame] d show ?thesis
    by simp
qed

lemma run_idle:
  assumes "state self = IDLE \<longrightarrow>
      address self = None \<and> data self = [] \<and> start_time self = None \<and> \<not> read self"
  shows "state (snd (run self frames)) = IDLE \<longrightarrow>
      address (snd (run self frames)) = None \<and> data (snd (run self frames)) = [] \<and>
      start_time (snd (run self frames)) = None \<and> \<not> read (snd (run self frames))"
  using assms
proof (induction frames arbitrary: self)
  case Nil
  then show ?case by simp
next
  case (Cons e frames)
  from Cons.IH [OF decode_idle [OF Cons.prems, of e]] show ?case
    by (simp only: run_Cons snd_conv)
qed

lemma run_agree:
  assumes "show_bits_setting s1 = show_bits_setting s2"
    and "IOCON_BANK s1 = IOCON_BANK s2"
    and "state s1 = state s2" and "address s1 = address s2" and "data s1 = data s2"
    and "start_time s1 = start_time s2" and "read s1 = read s2"
  shows "run s2 frames =
     (fst (run s1 frames), (snd (run s1 frames))\<lparr>iocon_bank_setting := iocon_bank_setting s2\<rparr>)"
proof -
  from assms have "s2 = s1\<lparr>iocon_bank_setting := iocon_bank_setting s2\<rparr>"
    by simp
  then show ?thesis
    using run_setting [of "iocon_bank_setting s2" s1 frames] by simp
qed

subsection \<open>Sequences of transactions\<close>

text \<open>
  The results of \<open>decode\<close> over a frame sequence, without the \<open>None\<close> of the
  frames that end no transaction, are the results of its body over the transactions of
  the sequence. The entry of a chip in the bank table stays through every transaction that
  does not write the configuration register of that chip.
\<close>

lemma transactions_Cons:
  "transactions self (frame # frames) =
     (case fst (ll_fsm self frame) of
        None \<Rightarrow> transactions (snd (ll_fsm self frame)) frames
      | Some f \<Rightarrow> f # transactions (snd (ll_fsm self frame)) frames)"
  by (simp add: case_prod_unfold)


lemma transactions_ll_run:
  "map Some (transactions self frames) = filter (\<lambda>x. x \<noteq> None) (fst (ll_run self frames))"
proof (induction frames arbitrary: self)
  case Nil
  show ?case by simp
next
  case (Cons e frames)
  show ?case
    by (cases "fst (ll_fsm self e)")
       (simp_all add: transactions_Cons case_prod_unfold Cons.IH del: transactions.simps)
qed











subsection \<open>Where \<open>decode\<close> raises\<close>

text \<open>
  The keys of the bank table are never removed, and a transaction of \<open>ll_fsm\<close> has a
  chip address that is a key. So the only exception of \<open>decode\<close> on the frames fed to
  a new analyzer is the IndexError of an empty payload.
\<close>

lemma foldl_bank_step_dom:
  "m a \<noteq> None \<Longrightarrow> foldl (bank_step b rd addr) m ps a \<noteq> None"
  by (induction ps arbitrary: m) (simp_all add: bank_step_def del: not_None_eq)

lemma decode_i2c_frame_raises:
  assumes "ll_address f = Some a" and "IOCON_BANK self a = Some b"
  shows "fst (decode_i2c_frame self f) = Inl e \<longleftrightarrow> ll_data f = [] \<and> e = IndexError"
  using assms
  by (auto simp: decode_i2c_frame_def decode_loop_char split: list.splits)

lemma decode_i2c_frame_dom:
  "IOCON_BANK self a \<noteq> None \<Longrightarrow> IOCON_BANK (snd (decode_i2c_frame self f)) a \<noteq> None"
  by (simp add: decode_i2c_frame_bank foldl_bank_step_dom del: not_None_eq
        split: list.splits option.splits)

lemma decode_dom:
  "IOCON_BANK self a \<noteq> None \<Longrightarrow> IOCON_BANK (snd (decode self frame)) a \<noteq> None"
  using ll_fsm_bank [of self frame]
  by (simp add: decode_unfold decode_i2c_frame_dom del: not_None_eq split: option.splits)

lemma decode_raises:
  assumes "\<forall>a. START_ADDRESS \<le> a \<and> a < START_ADDRESS + N_ADDRESSES \<longrightarrow> IOCON_BANK self a \<noteq> None"
    and "state self = DATA \<longrightarrow>
          (\<exists>a. address self = Some a \<and> START_ADDRESS \<le> a \<and> a < START_ADDRESS + N_ADDRESSES)"
  shows "fst (decode self frame) = Inl e \<longleftrightarrow>
           (\<exists>f. fst (ll_fsm self frame) = Some f \<and> ll_data f = []) \<and> e = IndexError"
proof (cases "fst (ll_fsm self frame)")
  case None
  then show ?thesis
    by (simp add: decode_unfold)
next
  case (Some f)
  from assms(2) have inv: "state self = DATA \<longrightarrow>
      (\<exists>a. address self = Some a \<and> START_ADDRESS \<le> a \<and> a < START_ADDRESS + N_ADDRESSES \<and> True)"
    by simp
  from ll_fsm_window [OF surjective_pairing inv, of frame] Some
  obtain a where a: "ll_address f = Some a" "START_ADDRESS \<le> a" "a < START_ADDRESS + N_ADDRESSES"
    by auto
  with assms(1) ll_fsm_bank [of self frame]
  obtain b where "IOCON_BANK (snd (ll_fsm self frame)) a = Some b"
    by auto
  from decode_i2c_frame_raises [OF a(1) this] Some show ?thesis
    by (simp add: decode_unfold)
qed

lemma decode_keeps_window:
  assumes "state self = DATA \<longrightarrow>
          (\<exists>a. address self = Some a \<and> START_ADDRESS \<le> a \<and> a < START_ADDRESS + N_ADDRESSES)"
  shows "state (snd (decode self frame)) = DATA \<longrightarrow>
          (\<exists>a. address (snd (decode self frame)) = Some a \<and> START_ADDRESS \<le> a \<and>
               a < START_ADDRESS + N_ADDRESSES)"
proof -
  from assms have inv: "state self = DATA \<longrightarrow>
      (\<exists>a. address self = Some a \<and> START_ADDRESS \<le> a \<and> a < START_ADDRESS + N_ADDRESSES \<and> True)"
    by simp
  from decode_via_ll_fsm [OF surjective_pairing surjective_pairing, of self frame]
  obtain m where "snd (decode self frame) = (snd (ll_fsm self frame))\<lparr>IOCON_BANK := m\<rparr>"
    by blast
  with ll_fsm_window [OF surjective_pairing inv, of frame] show ?thesis
    by auto
qed

lemma run_raises:
  assumes "\<forall>a. START_ADDRESS \<le> a \<and> a < START_ADDRESS + N_ADDRESSES \<longrightarrow> IOCON_BANK self a \<noteq> None"
    and "state self = DATA \<longrightarrow>
          (\<exists>a. address self = Some a \<and> START_ADDRESS \<le> a \<and> a < START_ADDRESS + N_ADDRESSES)"
    and "Inl e \<in> set (fst (run self frames))"
  shows "e = IndexError"
  using assms
proof (induction frames arbitrary: self)
  case Nil
  then show ?case by simp
next
  case (Cons x frames)
  show ?case
  proof (cases "fst (decode self x) = Inl e")
    case True
    with decode_raises [OF Cons.prems(1,2)] show ?thesis
      by blast
  next
    case False
    with Cons.prems(3) have mem: "Inl e \<in> set (fst (run (snd (decode self x)) frames))"
      by (simp add: run_Cons del: run.simps)
    from Cons.prems(1) have dom: "\<forall>a. START_ADDRESS \<le> a \<and> a < START_ADDRESS + N_ADDRESSES \<longrightarrow>
        IOCON_BANK (snd (decode self x)) a \<noteq> None"
      by (simp add: decode_dom del: not_None_eq)
    from Cons.IH [OF dom decode_keeps_window [OF Cons.prems(2)] mem] show ?thesis .
  qed
qed

lemma init_run_raises_only_IndexError:
  "Inl e \<in> set (fst (run (init bank show_bits) frames)) \<Longrightarrow> e = IndexError"
proof (rule run_raises)
  show "\<forall>a. START_ADDRESS \<le> a \<and> a < START_ADDRESS + N_ADDRESSES \<longrightarrow>
          IOCON_BANK (init bank show_bits) a \<noteq> None"
    by (simp add: init_def reset_def map_of_eq_None_iff image_iff)
  show "state (init bank show_bits) = DATA \<longrightarrow>
          (\<exists>a. address (init bank show_bits) = Some a \<and> START_ADDRESS \<le> a \<and>
               a < START_ADDRESS + N_ADDRESSES)"
    by (simp add: init_def reset_def)
qed

subsection \<open>Offsets beyond the tables\<close>

lemma MAP_above_0xff: "0xff < regaddr \<Longrightarrow> map_of (MAP b) regaddr = None"
  by (simp add: MAP_def)

lemma format_04x_not_IOCON: "format_04x n @ ''?'' \<noteq> ''IOCON''"
  by (simp add: format_04x_def Let_def)

lemma MAP_get_above_0xff: "0xff < regaddr \<Longrightarrow> MAP_get b regaddr = format_04x regaddr @ ''?''"
  by (simp add: MAP_get_def MAP_above_0xff)

lemma reg_fields_above_0xff:
  "0xff < regaddr \<Longrightarrow>
   reg_fields show_bits b (regaddr, regval) =
     [format_04x regaddr @ ''?='' @ format_04x (unat regval)]"
  by (simp add: reg_fields_def MAP_get_above_0xff format_04x_not_IOCON)

lemma length_hex_digits_pos: "0 < length (hex_digits n)"
  by (subst hex_digits.simps) simp

lemma length_hex_digits_above_0xff:
  assumes "0xff < n"
  shows "3 \<le> length (hex_digits n)"
proof -
  from assms have a: "\<not> n < 16" and b: "\<not> n div 16 < 16"
    by simp_all
  have "hex_digits n = hex_digits (n div 16 div 16) @ [hex_digit (n div 16 mod 16)] @
          [hex_digit (n mod 16)]"
    using a b by (simp add: hex_digits.simps [of n] hex_digits.simps [of "n div 16"])
  then have "length (hex_digits n) = length (hex_digits (n div 16 div 16)) + 2"
    by simp
  with length_hex_digits_pos [of "n div 16 div 16"] show ?thesis
    by linarith
qed

lemma format_04x_above_0xff:
  "0xff < n \<Longrightarrow> format_04x n = ''0x'' @ hex_digits n"
  using length_hex_digits_above_0xff [of n] by (simp add: format_04x_def Let_def)

section \<open>Empty payload\<close>

text \<open>
  C1. The claim is that \<open>decode\<close> returns a record with an empty field list for a
  completed transaction with an empty payload, and never raises for a transaction of the
  reassembler. The code does otherwise: a start, an acknowledged address for chip 0x20 and a
  stop make \<open>ll_fsm\<close> return a frame with an empty buffer, and \<open>decode\<close> then
  raises IndexError at \<open>i2c_frame.data[0]\<close>.
\<close>

theorem empty_payload_raises:
  "fst (run (init False False) probe_trace) = [Inr None, Inr None, Inl IndexError]"
  by (simp add: probe_trace_def decode_def decode_i2c_frame_def fsm_eval)

section \<open>Repeated start\<close>

text \<open>
  C2, as stated, fails: after a start, an acknowledged address, a data byte 0x12 and a second
  start (at time 6), the buffer still holds 0x12 and the start time is still 0; the stop
  that ends the sequence emits a transaction with the payload 0x12, 0x05 and start time 0.
\<close>

theorem repeated_start_counterexample:
  "data (snd (ll_run (init False False) (take 4 repeated_start_trace))) = [0x12] \<and>
   start_time (snd (ll_run (init False False) (take 4 repeated_start_trace))) = Some 0 \<and>
   fst (ll_run (init False False) repeated_start_trace) =
     [None, None, None, None, None, None,
      Some \<lparr>ll_start_time = Some 0, ll_end_time = 13, ll_data = [0x12, 0x05],
            ll_read = True, ll_address = Some 0x20\<rparr>]"
  by (simp add: repeated_start_trace_def fsm_eval)

text \<open>
  C2, amended. A start frame in state DATA emits nothing and moves the machine to START,
  with the buffer, the start time, the direction flag and the chip address unchanged. An
  acknowledged address in the watched window, data bytes and a stop that follow emit one
  transaction, whose payload is the buffered bytes followed by the new ones, whose start
  time is the one recorded before, and whose direction is the old flag or-ed with the new.
\<close>

theorem repeated_start_keeps_transaction:
  assumes "state self = DATA" and "ftype frame = Start"
    and "ftype fa = Address rd a True"
    and "START_ADDRESS \<le> a" and "a < START_ADDRESS + N_ADDRESSES"
    and "ftype fd = Data bs" and "ftype fs = Stop"
  shows "ll_fsm self frame = (None, self\<lparr>state := START\<rparr>) \<and>
         fst (ll_run self [frame, fa, fd, fs]) =
           [None, None, None,
            Some \<lparr>ll_start_time = start_time self, ll_end_time = f_end_time fs,
                  ll_data = data self @ bs, ll_read = (read self \<or> rd),
                  ll_address = Some a\<rparr>]"
  using assms by (simp add: ll_fsm_def)

text \<open>The amended C2 at the read with a repeated start.\<close>

theorem repeated_start_keeps_transaction_witness:
  "state (snd (ll_run (init False False) write_prefix_trace)) = DATA \<and>
   fst (ll_run (snd (ll_run (init False False) write_prefix_trace))
         [\<lparr>ftype = Start, f_start_time = 6, f_end_time = 7\<rparr>,
          \<lparr>ftype = Address True 0x20 True, f_start_time = 8, f_end_time = 9\<rparr>,
          \<lparr>ftype = Data [0x05], f_start_time = 10, f_end_time = 11\<rparr>,
          \<lparr>ftype = Stop, f_start_time = 12, f_end_time = 13\<rparr>]) =
     [None, None, None,
      Some \<lparr>ll_start_time = Some 0, ll_end_time = 13, ll_data = [0x12, 0x05],
            ll_read = True, ll_address = Some 0x20\<rparr>]"
proof -
  let ?s = "snd (ll_run (init False False) write_prefix_trace)"
  have st: "state ?s = DATA"
    by (simp add: write_prefix_trace_def fsm_eval)
  have vals: "start_time ?s = Some 0" "data ?s = [0x12]" "read ?s = False"
    by (simp_all add: write_prefix_trace_def fsm_eval)
  have win: "START_ADDRESS \<le> 0x20" "0x20 < START_ADDRESS + N_ADDRESSES"
    by (simp_all add: START_ADDRESS_def N_ADDRESSES_def)
  have "fst (ll_run ?s
          [\<lparr>ftype = Start, f_start_time = 6, f_end_time = 7\<rparr>,
           \<lparr>ftype = Address True 0x20 True, f_start_time = 8, f_end_time = 9\<rparr>,
           \<lparr>ftype = Data [0x05], f_start_time = 10, f_end_time = 11\<rparr>,
           \<lparr>ftype = Stop, f_start_time = 12, f_end_time = 13\<rparr>]) =
        [None, None, None,
         Some \<lparr>ll_start_time = start_time ?s,
               ll_end_time = f_end_time \<lparr>ftype = Stop, f_start_time = 12, f_end_time = 13\<rparr>,
               ll_data = data ?s @ [0x05], ll_read = (read ?s \<or> True),
               ll_address = Some 0x20\<rparr>]"
    by (rule repeated_start_keeps_transaction [THEN conjunct2, OF st _ _ win])
       simp_all
  then show ?thesis
    unfolding vals using st by simp
qed

section \<open>Bank mode within one transaction\<close>

text \<open>
  C3, as stated, fails. With bank mode 0 stored for chip 0x20, a write with the payload
  0x0b, 0x80, 0x05 writes 0x80, whose bank-select bit is set, to the configuration register
  at offset 0x0b. The next offset 0x0c is still named by the table of bank 0 (GPPUA); the
  table of bank 1 has no entry for it.
\<close>

theorem bank_switch_counterexample:
  "fst (run (init False False) bank_switch_trace) =
     [Inr None, Inr None, Inr None, Inr None, Inr None,
      Inr (Some \<lparr>af_type = ''MCP23017'', af_start_time = Some 0, af_end_time = 11,
                 af_address = 0x20, af_read = ''write'',
                 af_data = ''IOCON=0x80; GPPUA=0x05''\<rparr>)] \<and>
   iocon_bit_test 0x80 ''BANK'' = Inr True \<and>
   MAP_get False 0x0c = ''GPPUA'' \<and>
   MAP_get True 0x0c = ''0x0c?''"
  by (simp add: bank_switch_trace_def fsm_eval decode_eval)

text \<open>
  C3, amended. In a write transaction whose payload writes the configuration register at
  some offset, the offsets before it, the register itself and the offsets after it are all
  named by the table of the bank mode that was stored for the chip when the decoding of
  the transaction began. The mode recomputed from the written byte is stored for the chip
  (when no later offset of the payload is a configuration register in turn), so that it
  is in force from the next transaction on.
\<close>

theorem bank_mode_fixed_within_transaction:
  assumes "ll_data f = start_reg # pre @ v # post"
    and "ll_address f = Some addr"
    and "IOCON_BANK self addr = Some b"
    and "\<not> ll_read f"
    and "MAP_get b (unat start_reg + length pre) = ''IOCON''"
  shows "fst (decode_i2c_frame self f) =
     Inr (Some \<lparr>af_type = ''MCP23017'',
                af_start_time = ll_start_time f,
                af_end_time = ll_end_time f,
                af_address = addr,
                af_read = ''write'',
                af_data = join ''; ''
                  (concat (map (reg_fields (show_bits_setting self) b)
                            (List.enumerate (unat start_reg) pre)) @
                   reg_fields (show_bits_setting self) b (unat start_reg + length pre, v) @
                   concat (map (reg_fields (show_bits_setting self) b)
                            (List.enumerate (unat start_reg + length pre + 1) post)))\<rparr>) \<and>
    ((\<forall>p\<in>set (List.enumerate (unat start_reg + length pre + 1) post).
        MAP_get b (fst p) \<noteq> ''IOCON'') \<longrightarrow>
     IOCON_BANK (snd (decode_i2c_frame self f)) = (IOCON_BANK self)(addr \<mapsto> bit v 7))"
proof -
  have e: "List.enumerate (unat start_reg) (pre @ v # post) =
        List.enumerate (unat start_reg) pre @ (unat start_reg + length pre, v) #
        List.enumerate (unat start_reg + length pre + 1) post"
    by (simp add: enumerate_append)
  note d = decode_i2c_frame_ok [OF assms(1,2,3)]
  have "(foldl (bank_step b False addr) (IOCON_BANK self)
           (List.enumerate (unat start_reg) pre))(addr \<mapsto> bit v 7) =
        (IOCON_BANK self)(addr \<mapsto> bit v 7)"
    by (rule ext) (simp add: foldl_bank_step_other)
  then show ?thesis
    using assms(4,5) by (simp add: d e bank_step_def foldl_bank_step_no_iocon)
qed


text \<open>The amended C3 at the transaction above.\<close>

theorem bank_mode_fixed_within_transaction_witness:
  "ll_data bank_switch_frame = 0x0b # [] @ 0x80 # [0x05] \<and>
   ll_address bank_switch_frame = Some 0x20 \<and>
   IOCON_BANK (init False False) 0x20 = Some False \<and>
   \<not> ll_read bank_switch_frame \<and>
   MAP_get False (unat (0x0b :: 8 word) + length ([] :: 8 word list)) = ''IOCON'' \<and>
   fst (decode_i2c_frame (init False False) bank_switch_frame) =
     Inr (Some \<lparr>af_type = ''MCP23017'', af_start_time = Some 0, af_end_time = 11,
                 af_address = 0x20, af_read = ''write'',
                 af_data = ''IOCON=0x80; GPPUA=0x05''\<rparr>) \<and>
   IOCON_BANK (snd (decode_i2c_frame (init False False) bank_switch_frame)) =
     (IOCON_BANK (init False False))(0x20 \<mapsto> True)"
proof -
  have hs:
    "ll_data bank_switch_frame = 0x0b # [] @ 0x80 # [0x05]"
    "ll_address bank_switch_frame = Some 0x20"
    "IOCON_BANK (init False False) 0x20 = Some False"
    "\<not> ll_read bank_switch_frame"
    "MAP_get False (unat (0x0b :: 8 word) + length ([] :: 8 word list)) = ''IOCON''"
    by (simp_all add: bank_switch_frame_def fsm_eval MAP_get_def MAP_def)
  have sb: "\<not> show_bits_setting (init False False)"
    by (simp add: fsm_eval)
  have times: "ll_start_time bank_switch_frame = Some 0" "ll_end_time bank_switch_frame = 11"
    by (simp_all add: bank_switch_frame_def)
  note t = bank_mode_fixed_within_transaction [OF hs]
  have out: "fst (decode_i2c_frame (init False False) bank_switch_frame) =
     Inr (Some \<lparr>af_type = ''MCP23017'', af_start_time = Some 0, af_end_time = 11,
                 af_address = 0x20, af_read = ''write'',
                 af_data = ''IOCON=0x80; GPPUA=0x05''\<rparr>)"
    using t [THEN conjunct1] by (simp add: sb times fields_eval)
  have bank: "IOCON_BANK (snd (decode_i2c_frame (init False False) bank_switch_frame)) =
     (IOCON_BANK (init False False))(0x20 \<mapsto> True)"
    using t [THEN conjunct2] by (simp add: MAP_get_def MAP_def enumerate_eq_zip)
  from hs out bank show ?thesis by blast
qed


section \<open>Number and order of the fields\<close>

text \<open>
  C4, as stated, fails. With the bit expansion switched on, the payload 0x0a, 0x84 has one
  value byte and yields seven fields.
\<close>

theorem field_count_counterexample:
  "fst (decode_loop False False 0x20 (List.enumerate (unat (0x0a :: 8 word)) [0x84])
         (init False True) []) =
     Inr [''INTPOL=False'', ''ODR=True'', ''HAEN=False'', ''DISSLW=False'',
          ''SEQOP=False'', ''MIRROW=False'', ''BANK=True''] \<and>
   length [''INTPOL=False'', ''ODR=True'', ''HAEN=False'', ''DISSLW=False'',
           ''SEQOP=False'', ''MIRROW=False'', ''BANK=True''] \<noteq> length [0x84 :: 8 word] \<and>
   fst (run (init False True) verbose_trace) =
     [Inr None, Inr None, Inr None, Inr None,
      Inr (Some \<lparr>af_type = ''MCP23017'', af_start_time = Some 0, af_end_time = 9,
                 af_address = 0x20, af_read = ''write'',
                 af_data = ''INTPOL=False; ODR=True; HAEN=False; DISSLW=False; SEQOP=False; MIRROW=False; BANK=True''\<rparr>)]"
  by (simp add: verbose_trace_def fsm_eval decode_eval)

text \<open>
  C4, amended. For a transaction with the payload \<open>o, v1, ..., vn\<close> the fields are
  produced in offset order \<open>o, o+1, ..., o+n-1\<close>, none omitted or reordered: the list
  is the concatenation, over the value bytes in order, of the fields of each byte. With
  the bit expansion switched off each byte has exactly one field, \<open>name=value\<close>, so
  that there are exactly \<open>n\<close> fields; with it switched on, a byte at an offset of the
  configuration register has its seven bit fields in place of the one.
\<close>

theorem one_field_per_value_byte:
  assumes "ll_data f = start_reg # vals"
    and "ll_address f = Some addr"
    and "IOCON_BANK self addr = Some b"
  shows "fst (decode_loop b (ll_read f) addr (List.enumerate (unat start_reg) vals) self []) =
           Inr (concat (map (\<lambda>i. reg_fields (show_bits_setting self) b
                                   (unat start_reg + i, vals ! i)) [0..<length vals])) \<and>
         fst (decode_i2c_frame self f) =
           Inr (Some \<lparr>af_type = ''MCP23017'',
                      af_start_time = ll_start_time f,
                      af_end_time = ll_end_time f,
                      af_address = addr,
                      af_read = (if ll_read f then ''read'' else ''write''),
                      af_data = join ''; ''
                        (concat (map (\<lambda>i. reg_fields (show_bits_setting self) b
                                        (unat start_reg + i, vals ! i)) [0..<length vals]))\<rparr>) \<and>
         (\<not> show_bits_setting self \<longrightarrow>
            concat (map (\<lambda>i. reg_fields (show_bits_setting self) b
                            (unat start_reg + i, vals ! i)) [0..<length vals]) =
              map (\<lambda>i. MAP_get b (unat start_reg + i) @ ''='' @ format_04x (unat (vals ! i)))
                [0..<length vals] \<and>
            length (concat (map (\<lambda>i. reg_fields (show_bits_setting self) b
                                  (unat start_reg + i, vals ! i)) [0..<length vals])) =
              length vals)"
proof -
  let ?fs = "\<lambda>i. reg_fields (show_bits_setting self) b (unat start_reg + i, vals ! i)"
  have m: "map (reg_fields (show_bits_setting self) b) (List.enumerate (unat start_reg) vals) =
           map ?fs [0..<length vals]"
    by (simp add: enumerate_nth_map o_def)
  have loop: "fst (decode_loop b (ll_read f) addr (List.enumerate (unat start_reg) vals) self []) =
              Inr (concat (map ?fs [0..<length vals]))"
    by (simp add: decode_loop_char m)
  have frame: "fst (decode_i2c_frame self f) =
           Inr (Some \<lparr>af_type = ''MCP23017'',
                      af_start_time = ll_start_time f,
                      af_end_time = ll_end_time f,
                      af_address = addr,
                      af_read = (if ll_read f then ''read'' else ''write''),
                      af_data = join ''; '' (concat (map ?fs [0..<length vals]))\<rparr>)"
    by (simp add: decode_i2c_frame_ok [OF assms] m)
  have plain: "concat (map ?fs [0..<length vals]) =
               map (\<lambda>i. MAP_get b (unat start_reg + i) @ ''='' @ format_04x (unat (vals ! i)))
                 [0..<length vals]"
    if "\<not> show_bits_setting self"
  proof -
    have "?fs =
          (\<lambda>i. [MAP_get b (unat start_reg + i) @ ''='' @ format_04x (unat (vals ! i))])"
      using that by (simp add: reg_fields_plain)
    then show ?thesis
      by (simp only: concat_map_single)
  qed
  have len: "length (concat (map ?fs [0..<length vals])) = length vals"
    if "\<not> show_bits_setting self"
    by (simp only: plain [OF that]) simp
  from loop frame plain len show ?thesis
    by blast
qed

text \<open>The amended C4 at a write of two value bytes without bit expansion.\<close>

theorem one_field_per_value_byte_witness:
  "ll_data bank_switch_frame = 0x0b # [0x80, 0x05] \<and>
   ll_address bank_switch_frame = Some 0x20 \<and>
   IOCON_BANK (init False False) 0x20 = Some False \<and>
   \<not> show_bits_setting (init False False) \<and>
   fst (decode_loop False (ll_read bank_switch_frame) 0x20
         (List.enumerate (unat (0x0b :: 8 word)) [0x80, 0x05]) (init False False) []) =
     Inr [''IOCON=0x80'', ''GPPUA=0x05''] \<and>
   fst (decode_i2c_frame (init False False) bank_switch_frame) =
     Inr (Some \<lparr>af_type = ''MCP23017'', af_start_time = Some 0, af_end_time = 11,
                 af_address = 0x20, af_read = ''write'',
                 af_data = join ''; '' [''IOCON=0x80'', ''GPPUA=0x05'']\<rparr>) \<and>
   length [''IOCON=0x80'', ''GPPUA=0x05''] = length [0x80 :: 8 word, 0x05]"
proof -
  have hs:
    "ll_data bank_switch_frame = 0x0b # [0x80, 0x05]"
    "ll_address bank_switch_frame = Some 0x20"
    "IOCON_BANK (init False False) 0x20 = Some False"
    by (simp_all add: bank_switch_frame_def fsm_eval)
  have sb: "\<not> show_bits_setting (init False False)"
    by (simp add: fsm_eval)
  have rest: "ll_start_time bank_switch_frame = Some 0" "ll_end_time bank_switch_frame = 11"
    "\<not> ll_read bank_switch_frame"
    by (simp_all add: bank_switch_frame_def)
  note t = one_field_per_value_byte [OF hs]
  have fs: "concat (map (\<lambda>i. reg_fields (show_bits_setting (init False False)) False
              (unat (0x0b :: 8 word) + i, [0x80, 0x05 :: 8 word] ! i))
              [0..<length [0x80 :: 8 word, 0x05]]) = [''IOCON=0x80'', ''GPPUA=0x05'']"
    using t [THEN conjunct2, THEN conjunct2] sb
    by (simp add: MAP_get_def MAP_def format_04x_def hex_digits.simps hex_digit_def upt_rec)
  from t [THEN conjunct1] t [THEN conjunct2, THEN conjunct1] hs sb show ?thesis
    unfolding fs by (simp add: rest)
qed


section \<open>Bit expansion of the configuration register\<close>

text \<open>
  C5, as stated, fails. The value 0x84 has the bits 7 and 2 set; \<open>IOCON_BITS\<close> puts
  ODR at bit 2 and HAEN at bit 3, so the fields say \<open>ODR=True\<close> and \<open>HAEN=False\<close>.
\<close>

theorem haen_counterexample:
  "iocon_bit_test 0x84 ''HAEN'' = Inr False \<and>
   iocon_bit_test 0x84 ''ODR'' = Inr True \<and>
   fst (decode_i2c_frame (init False True) verbose_frame) =
     Inr (Some \<lparr>af_type = ''MCP23017'', af_start_time = Some 0, af_end_time = 9,
                 af_address = 0x20, af_read = ''write'',
                 af_data = ''INTPOL=False; ODR=True; HAEN=False; DISSLW=False; SEQOP=False; MIRROW=False; BANK=True''\<rparr>)"
  by (simp add: verbose_frame_def fsm_eval decode_eval)

text \<open>
  C5, amended. With the bit expansion switched on, a transaction whose payload gives the
  value 0x84 to the configuration register yields exactly seven fields, one for each named
  bit and none for bit 0, in the order of \<open>IOCON_BITS\<close>: \<open>ODR=True\<close> and
  \<open>BANK=True\<close>, all other bits \<open>False\<close>.
\<close>

theorem verbose_iocon_0x84:
  assumes "show_bits_setting self"
    and "ll_data f = [start_reg, 0x84]"
    and "ll_address f = Some addr"
    and "IOCON_BANK self addr = Some b"
    and "MAP_get b (unat start_reg) = ''IOCON''"
  shows "fst (decode_loop b (ll_read f) addr (List.enumerate (unat start_reg) [0x84]) self []) =
           Inr [''INTPOL=False'', ''ODR=True'', ''HAEN=False'', ''DISSLW=False'',
                ''SEQOP=False'', ''MIRROW=False'', ''BANK=True''] \<and>
         fst (decode_i2c_frame self f) =
           Inr (Some \<lparr>af_type = ''MCP23017'',
                      af_start_time = ll_start_time f,
                      af_end_time = ll_end_time f,
                      af_address = addr,
                      af_read = (if ll_read f then ''read'' else ''write''),
                      af_data = join ''; ''
                        [''INTPOL=False'', ''ODR=True'', ''HAEN=False'', ''DISSLW=False'',
                         ''SEQOP=False'', ''MIRROW=False'', ''BANK=True'']\<rparr>)"
proof -
  have fs: "reg_fields (show_bits_setting self) b (unat start_reg, 0x84) =
        [''INTPOL=False'', ''ODR=True'', ''HAEN=False'', ''DISSLW=False'',
         ''SEQOP=False'', ''MIRROW=False'', ''BANK=True'']"
    using assms(1,5) by (simp add: reg_fields_def IOCON_BITS_def str_bool_def)
  have loop: "fst (decode_loop b (ll_read f) addr (List.enumerate (unat start_reg) [0x84]) self []) =
        Inr [''INTPOL=False'', ''ODR=True'', ''HAEN=False'', ''DISSLW=False'',
             ''SEQOP=False'', ''MIRROW=False'', ''BANK=True'']"
    by (simp add: decode_loop_char fs)
  have frame: "fst (decode_i2c_frame self f) =
           Inr (Some \<lparr>af_type = ''MCP23017'',
                      af_start_time = ll_start_time f,
                      af_end_time = ll_end_time f,
                      af_address = addr,
                      af_read = (if ll_read f then ''read'' else ''write''),
                      af_data = join ''; ''
                        [''INTPOL=False'', ''ODR=True'', ''HAEN=False'', ''DISSLW=False'',
                         ''SEQOP=False'', ''MIRROW=False'', ''BANK=True'']\<rparr>)"
    by (simp add: decode_i2c_frame_ok [OF assms(2,3,4)] fs)
  from loop frame show ?thesis by (rule conjI)
qed

text \<open>The amended C5 at a write to chip 0x20 under bank mode 0.\<close>

theorem verbose_iocon_0x84_witness:
  "show_bits_setting (init False True) \<and>
   ll_data verbose_frame = [0x0a, 0x84] \<and>
   ll_address verbose_frame = Some 0x20 \<and>
   IOCON_BANK (init False True) 0x20 = Some False \<and>
   MAP_get False (unat (0x0a :: 8 word)) = ''IOCON'' \<and>
   fst (decode_i2c_frame (init False True) verbose_frame) =
     Inr (Some \<lparr>af_type = ''MCP23017'', af_start_time = Some 0, af_end_time = 9,
                 af_address = 0x20, af_read = ''write'',
                 af_data = ''INTPOL=False; ODR=True; HAEN=False; DISSLW=False; SEQOP=False; MIRROW=False; BANK=True''\<rparr>)"
proof -
  have hs:
    "show_bits_setting (init False True)"
    "ll_data verbose_frame = [0x0a, 0x84]"
    "ll_address verbose_frame = Some 0x20"
    "IOCON_BANK (init False True) 0x20 = Some False"
    "MAP_get False (unat (0x0a :: 8 word)) = ''IOCON''"
    by (simp_all add: verbose_frame_def fsm_eval MAP_get_def MAP_def)
  have rest: "ll_start_time verbose_frame = Some 0" "ll_end_time verbose_frame = 9"
    "\<not> ll_read verbose_frame"
    by (simp_all add: verbose_frame_def)
  from verbose_iocon_0x84 [OF hs, THEN conjunct2] hs show ?thesis
    by (simp add: rest)
qed

section \<open>Watched addresses\<close>




section \<open>Writes to the configuration register\<close>



section \<open>Reads and the bank table\<close>

text \<open>
  C8. Decoding a read transaction leaves the bank table as it is, whatever the payload:
  for the body of \<open>decode\<close> on any read transaction and any analyzer state, and for
  \<open>decode\<close> on a frame at which \<open>ll_fsm\<close> emits a read transaction.
\<close>

theorem read_never_changes_bank:
  assumes "ll_read f"
  shows "IOCON_BANK (snd (decode_i2c_frame self f)) = IOCON_BANK self \<and>
         (fst (ll_fsm self frame) = Some f \<longrightarrow>
            IOCON_BANK (snd (decode self frame)) = IOCON_BANK self)"
proof -
  have a: "IOCON_BANK (snd (decode_i2c_frame s f)) = IOCON_BANK s" for s
    using assms
    by (simp add: decode_i2c_frame_bank foldl_bank_step_read split: list.splits option.splits)
  have "IOCON_BANK (snd (decode self frame)) = IOCON_BANK self"
    if "fst (ll_fsm self frame) = Some f"
  proof -
    from that have l: "ll_fsm self frame = (Some f, snd (ll_fsm self frame))"
      by (simp add: prod_eq_iff)
    define s1 where "s1 = snd (ll_fsm self frame)"
    note l = l [folded s1_def]
    then have "decode self frame = decode_i2c_frame s1 f"
      by (simp add: decode_def)
    moreover from l have "IOCON_BANK s1 = IOCON_BANK self"
      using ll_fsm_bank [of self frame] by simp
    ultimately show ?thesis
      by (simp add: a)
  qed
  with a show ?thesis by blast
qed

text \<open>
  C8 at a read of the configuration register under bank mode 0 that returns 0x80, whose
  bank-select bit is set.
\<close>

theorem read_never_changes_bank_witness:
  "ll_read iocon_read_frame \<and>
   fst (decode_i2c_frame (init False False) iocon_read_frame) =
     Inr (Some \<lparr>af_type = ''MCP23017'', af_start_time = Some 0, af_end_time = 9,
                 af_address = 0x20, af_read = ''read'', af_data = ''IOCON=0x80''\<rparr>) \<and>
   IOCON_BANK (snd (decode_i2c_frame (init False False) iocon_read_frame)) =
     IOCON_BANK (init False False) \<and>
   fst (ll_fsm (snd (run (init False False) iocon_read_prefix_trace))
         \<lparr>ftype = Stop, f_start_time = 8, f_end_time = 9\<rparr>) = Some iocon_read_frame \<and>
   IOCON_BANK (snd (decode (snd (run (init False False) iocon_read_prefix_trace))
                       \<lparr>ftype = Stop, f_start_time = 8, f_end_time = 9\<rparr>)) =
     IOCON_BANK (snd (run (init False False) iocon_read_prefix_trace))"
proof -
  let ?s = "snd (run (init False False) iocon_read_prefix_trace)"
  let ?stop = "\<lparr>ftype = Stop, f_start_time = 8, f_end_time = 9\<rparr>"
  have r: "ll_read iocon_read_frame"
    by (simp add: iocon_read_frame_def)
  have out: "fst (decode_i2c_frame (init False False) iocon_read_frame) =
     Inr (Some \<lparr>af_type = ''MCP23017'', af_start_time = Some 0, af_end_time = 9,
                 af_address = 0x20, af_read = ''read'', af_data = ''IOCON=0x80''\<rparr>)"
    by (simp add: iocon_read_frame_def fsm_eval decode_eval)
  have emit: "fst (ll_fsm ?s ?stop) = Some iocon_read_frame"
    by (simp add: iocon_read_prefix_trace_def iocon_read_frame_def decode_def fsm_eval)
  note t = read_never_changes_bank [OF r]
  from t [of "init False False", THEN conjunct1] t [of ?s ?stop, THEN conjunct2] r out emit
  show ?thesis
    by blast
qed


section \<open>Determinism\<close>

text \<open>
  C9. Take two analyzers constructed with the same bit-expansion setting, each after some
  frames of its own. If their bank tables are equal and their reassemblers are both idle
  (or agree in state, address, buffer, start time and direction flag), then the same frame
  sequence yields the same results from both, element by element, and leaves them with
  equal bank tables and reassembler fields. The results are thus a function of the
  settings, the bank table reached so far and the frames.
\<close>

theorem decode_deterministic:
  assumes "s1 = snd (run (init bank1 show_bits) history1)"
    and "s2 = snd (run (init bank2 show_bits) history2)"
    and "IOCON_BANK s1 = IOCON_BANK s2"
    and "state s1 = IDLE \<and> state s2 = IDLE \<or>
         state s1 = state s2 \<and> address s1 = address s2 \<and> data s1 = data s2 \<and>
         start_time s1 = start_time s2 \<and> read s1 = read s2"
  shows "fst (run s1 frames) = fst (run s2 frames) \<and>
         IOCON_BANK (snd (run s1 frames)) = IOCON_BANK (snd (run s2 frames)) \<and>
         state (snd (run s1 frames)) = state (snd (run s2 frames)) \<and>
         address (snd (run s1 frames)) = address (snd (run s2 frames)) \<and>
         data (snd (run s1 frames)) = data (snd (run s2 frames)) \<and>
         start_time (snd (run s1 frames)) = start_time (snd (run s2 frames)) \<and>
         read (snd (run s1 frames)) = read (snd (run s2 frames))"
proof -
  have i: "state (init b show_bits) = IDLE \<longrightarrow>
      address (init b show_bits) = None \<and> data (init b show_bits) = [] \<and>
      start_time (init b show_bits) = None \<and> \<not> read (init b show_bits)" for b
    by (simp add: init_def reset_def)
  note i1 = run_idle [OF i [of bank1], of history1, folded assms(1)]
  note i2 = run_idle [OF i [of bank2], of history2, folded assms(2)]
  have sb: "show_bits_setting s1 = show_bits_setting s2"
    by (simp add: assms(1,2) run_show_bits init_def reset_def)
  from assms(4) i1 i2
  have fsm: "state s1 = state s2" "address s1 = address s2" "data s1 = data s2"
    "start_time s1 = start_time s2" "read s1 = read s2"
    by auto
  from run_agree [OF sb assms(3) fsm, of frames] show ?thesis
    by simp
qed


text \<open>
  C9 at a new analyzer and one that has decoded a register read, both then fed a write.
\<close>

theorem decode_deterministic_witness:
  "IOCON_BANK (snd (run (init False False) [])) =
     IOCON_BANK (snd (run (init False False) repeated_start_trace)) \<and>
   state (snd (run (init False False) [])) = IDLE \<and>
   state (snd (run (init False False) repeated_start_trace)) = IDLE \<and>
   fst (run (snd (run (init False False) [])) bank_switch_trace) =
     fst (run (snd (run (init False False) repeated_start_trace)) bank_switch_trace) \<and>
   fst (run (snd (run (init False False) repeated_start_trace)) bank_switch_trace) =
     [Inr None, Inr None, Inr None, Inr None, Inr None,
      Inr (Some \<lparr>af_type = ''MCP23017'', af_start_time = Some 0, af_end_time = 11,
                 af_address = 0x20, af_read = ''write'',
                 af_data = ''IOCON=0x80; GPPUA=0x05''\<rparr>)]"
proof -
  let ?s1 = "snd (run (init False False) [])"
  let ?s2 = "snd (run (init False False) repeated_start_trace)"
  have bank: "IOCON_BANK ?s1 = IOCON_BANK ?s2"
    by (simp add: repeated_start_trace_def fsm_eval decode_eval)
  have idle: "state ?s1 = IDLE" "state ?s2 = IDLE"
    by (simp_all add: repeated_start_trace_def fsm_eval decode_eval)
  have out1: "fst (run ?s1 bank_switch_trace) =
     [Inr None, Inr None, Inr None, Inr None, Inr None,
      Inr (Some \<lparr>af_type = ''MCP23017'', af_start_time = Some 0, af_end_time = 11,
                 af_address = 0x20, af_read = ''write'',
                 af_data = ''IOCON=0x80; GPPUA=0x05''\<rparr>)]"
    by (simp add: bank_switch_trace_def fsm_eval decode_eval)
  from idle have h4: "state ?s1 = IDLE \<and> state ?s2 = IDLE \<or>
         state ?s1 = state ?s2 \<and> address ?s1 = address ?s2 \<and> data ?s1 = data ?s2 \<and>
         start_time ?s1 = start_time ?s2 \<and> read ?s1 = read ?s2"
    by blast
  from decode_deterministic [OF refl refl bank h4, of bank_switch_trace]
  have eq: "fst (run ?s1 bank_switch_trace) = fst (run ?s2 bank_switch_trace)"
    by blast
  from bank idle eq out1 show ?thesis
    by simp
qed


section \<open>Offsets above 0xff\<close>

text \<open>
  C10. The offsets of a payload are the start offset plus the index of the value byte, as
  natural numbers, with no reduction modulo 256. When the offset of the value byte \<open>i\<close>
  exceeds 0xff, neither table has an entry for it, and its one field is the offset in
  hexadecimal with at least three digits, followed by \<open>?=\<close> and the value; the fields
  of the bytes before and after it surround it in order.
\<close>

theorem offsets_above_0xff_not_wrapped:
  assumes "ll_data f = start_reg # vals"
    and "ll_address f = Some addr"
    and "IOCON_BANK self addr = Some b"
    and "i < length vals"
    and "0xff < unat start_reg + i"
  shows "fst (decode_loop b (ll_read f) addr (List.enumerate (unat start_reg) vals) self []) =
           Inr (concat (map (reg_fields (show_bits_setting self) b)
                         (List.enumerate (unat start_reg) (take i vals))) @
                [format_04x (unat start_reg + i) @ ''?='' @ format_04x (unat (vals ! i))] @
                concat (map (reg_fields (show_bits_setting self) b)
                         (List.enumerate (unat start_reg + i + 1) (drop (i + 1) vals)))) \<and>
         fst (decode_i2c_frame self f) =
           Inr (Some \<lparr>af_type = ''MCP23017'',
                      af_start_time = ll_start_time f,
                      af_end_time = ll_end_time f,
                      af_address = addr,
                      af_read = (if ll_read f then ''read'' else ''write''),
                      af_data = join ''; ''
                        (concat (map (reg_fields (show_bits_setting self) b)
                                  (List.enumerate (unat start_reg) (take i vals))) @
                         [format_04x (unat start_reg + i) @ ''?='' @
                          format_04x (unat (vals ! i))] @
                         concat (map (reg_fields (show_bits_setting self) b)
                                  (List.enumerate (unat start_reg + i + 1)
                                    (drop (i + 1) vals))))\<rparr>) \<and>
         map_of (MAP False) (unat start_reg + i) = None \<and>
         map_of (MAP True) (unat start_reg + i) = None \<and>
         format_04x (unat start_reg + i) = ''0x'' @ hex_digits (unat start_reg + i) \<and>
         3 \<le> length (hex_digits (unat start_reg + i))"
proof -
  let ?n = "unat start_reg"
  let ?sb = "show_bits_setting self"
  from assms(4) have "vals = take i vals @ vals ! i # drop (i + 1) vals"
    by (simp add: id_take_nth_drop)
  then have "List.enumerate ?n vals =
        List.enumerate ?n (take i vals @ vals ! i # drop (i + 1) vals)"
    by simp
  also have "\<dots> = List.enumerate ?n (take i vals) @ (?n + i, vals ! i) #
        List.enumerate (?n + i + 1) (drop (i + 1) vals)"
    using assms(4) by (simp add: enumerate_append min_def)
  finally have e: "List.enumerate ?n vals =
        List.enumerate ?n (take i vals) @ (?n + i, vals ! i) #
        List.enumerate (?n + i + 1) (drop (i + 1) vals)" .
  have fs: "concat (map (reg_fields ?sb b) (List.enumerate ?n vals)) =
        concat (map (reg_fields ?sb b) (List.enumerate ?n (take i vals))) @
        [format_04x (?n + i) @ ''?='' @ format_04x (unat (vals ! i))] @
        concat (map (reg_fields ?sb b) (List.enumerate (?n + i + 1) (drop (i + 1) vals)))"
    by (simp only: e map_append list.map concat_append concat.simps
          reg_fields_above_0xff [OF assms(5)])
  have loop: "fst (decode_loop b (ll_read f) addr (List.enumerate ?n vals) self []) =
        Inr (concat (map (reg_fields ?sb b) (List.enumerate ?n vals)))"
    by (simp add: decode_loop_char)
  have frame: "fst (decode_i2c_frame self f) =
           Inr (Some \<lparr>af_type = ''MCP23017'',
                      af_start_time = ll_start_time f,
                      af_end_time = ll_end_time f,
                      af_address = addr,
                      af_read = (if ll_read f then ''read'' else ''write''),
                      af_data = join ''; ''
                        (concat (map (reg_fields ?sb b) (List.enumerate ?n vals)))\<rparr>)"
    by (simp add: decode_i2c_frame_ok [OF assms(1,2,3)])
  note tabs = MAP_above_0xff [OF assms(5), of False] MAP_above_0xff [OF assms(5), of True]
  note fmt = format_04x_above_0xff [OF assms(5)] length_hex_digits_above_0xff [OF assms(5)]
  from loop frame tabs fmt show ?thesis
    unfolding fs by blast
qed

text \<open>C10 at the payload 0xff, 0x01, 0x02: the second value byte has the offset 0x100.\<close>

theorem offsets_above_0xff_not_wrapped_witness:
  "ll_data wrap_frame = 0xff # [0x01, 0x02] \<and>
   ll_address wrap_frame = Some 0x20 \<and>
   IOCON_BANK (init False False) 0x20 = Some False \<and>
   (1 :: nat) < length [0x01 :: 8 word, 0x02] \<and>
   0xff < unat (0xff :: 8 word) + 1 \<and>
   fst (decode_i2c_frame (init False False) wrap_frame) =
     Inr (Some \<lparr>af_type = ''MCP23017'', af_start_time = Some 0, af_end_time = 11,
                 af_address = 0x20, af_read = ''write'',
                 af_data = ''0xff?=0x01; 0x100?=0x02''\<rparr>) \<and>
   format_04x (unat (0xff :: 8 word) + 1) = ''0x100''"
proof -
  have hs:
    "ll_data wrap_frame = 0xff # [0x01, 0x02]"
    "ll_address wrap_frame = Some 0x20"
    "IOCON_BANK (init False False) 0x20 = Some False"
    "(1 :: nat) < length [0x01 :: 8 word, 0x02]"
    "0xff < unat (0xff :: 8 word) + 1"
    by (simp_all add: wrap_frame_def fsm_eval)
  have rest: "ll_start_time wrap_frame = Some 0" "ll_end_time wrap_frame = 11"
    "\<not> ll_read wrap_frame" "\<not> show_bits_setting (init False False)"
    by (simp_all add: wrap_frame_def fsm_eval)
  note t = offsets_above_0xff_not_wrapped [OF hs]
  have out: "fst (decode_i2c_frame (init False False) wrap_frame) =
     Inr (Some \<lparr>af_type = ''MCP23017'', af_start_time = Some 0, af_end_time = 11,
                 af_address = 0x20, af_read = ''write'',
                 af_data = ''0xff?=0x01; 0x100?=0x02''\<rparr>)"
    using t [THEN conjunct2, THEN conjunct1]
    by (simp add: rest fields_eval)
  have fmt: "format_04x (unat (0xff :: 8 word) + 1) = ''0x100''"
    using t [THEN conjunct2, THEN conjunct2, THEN conjunct2, THEN conjunct2, THEN conjunct1]
    by (simp add: hex_digits.simps hex_digit_def)
  from hs out fmt show ?thesis
    by blast
qed


end
